theory Spec2Isabelle
  imports Complex_Main "HOL-Library.AList" "HOL-Library.Multiset"
begin

section \<open>Agent registry (infra/agent-registry)\<close>

text \<open>
  A Vox agent as far as the registry reads it: the registry only looks at
  \<open>agent.name\<close> (the key) and \<open>agent.description\<close> (logged).
\<close>

record VoxAgent =
  name :: string
  description :: string

text \<open>
  The class \<open>AgentRegistry\<close>. Its \<open>agents\<close> field is a JavaScript \<open>Map\<close>,
  kept here as an association list in insertion order: \<open>Map.set\<close> replaces the value
  of a present key in place and appends an absent one (\<open>AList.update\<close>),
  \<open>Map.delete\<close> removes the entry (\<open>AList.delete\<close>). The logger calls have no
  effect on the registry and are left out.
\<close>

record AgentRegistry =
  agents :: "(string \<times> VoxAgent) list"
  defaultsInitialized :: bool

definition Map_has :: "(string \<times> 'v) list \<Rightarrow> string \<Rightarrow> bool" where
  "Map_has m k = (map_of m k \<noteq> None)"

definition Map_get :: "(string \<times> 'v) list \<Rightarrow> string \<Rightarrow> 'v option" where
  "Map_get m k = map_of m k"

definition Map_set :: "(string \<times> 'v) list \<Rightarrow> string \<Rightarrow> 'v \<Rightarrow> (string \<times> 'v) list" where
  "Map_set m k v = AList.update k v m"

text \<open>\<open>Map.delete\<close> returns whether an entry was removed, and the map without it.\<close>

definition Map_delete :: "(string \<times> 'v) list \<Rightarrow> string \<Rightarrow> bool \<times> (string \<times> 'v) list" where
  "Map_delete m k = (Map_has m k, AList.delete k m)"

definition emptyRegistry :: AgentRegistry where
  "emptyRegistry = \<lparr>agents = [], defaultsInitialized = False\<rparr>"

definition register :: "VoxAgent \<Rightarrow> AgentRegistry \<Rightarrow> bool \<times> AgentRegistry" where
  "register agent r =
     (let isReplacement = Map_has (agents r) (name agent);
          r' = r\<lparr>agents := Map_set (agents r) (name agent) agent\<rparr>
      in (\<not> isReplacement, r'))"

definition unregister :: "string \<Rightarrow> AgentRegistry \<Rightarrow> bool \<times> AgentRegistry" where
  "unregister nm r =
     (let (wasDeleted, m') = Map_delete (agents r) nm
      in (wasDeleted, r\<lparr>agents := m'\<rparr>))"

definition get :: "string \<Rightarrow> AgentRegistry \<Rightarrow> VoxAgent option" where
  "get nm r = Map_get (agents r) nm"

definition has :: "string \<Rightarrow> AgentRegistry \<Rightarrow> bool" where
  "has nm r = Map_has (agents r) nm"

definition getAll :: "AgentRegistry \<Rightarrow> VoxAgent list" where
  "getAll r = map snd (agents r)"

definition getNames :: "AgentRegistry \<Rightarrow> string list" where
  "getNames r = map fst (agents r)"

definition size_registry :: "AgentRegistry \<Rightarrow> nat" where
  "size_registry r = length (agents r)"

definition clear :: "bool \<Rightarrow> AgentRegistry \<Rightarrow> AgentRegistry" where
  "clear includeDefaults r =
     (let r' = r\<lparr>agents := []\<rparr>
      in if includeDefaults then r'\<lparr>defaultsInitialized := False\<rparr> else r')"

section \<open>JavaScript values\<close>

text \<open>
  The victory report and the strategic ledger reach the utilities below as parsed JSON
  whose player entries are untyped (\<open>Record<string, any>\<close>), so the values are
  modelled dynamically. Numbers are the finite numbers JSON can carry, kept as exact
  rationals (IEEE rounding is not modelled). An object is its list of own properties in
  the order \<open>Object.keys\<close> enumerates them.
\<close>

datatype jsval =
    JUndefined
  | JNull
  | JBool bool
  | JNum rat
  | JStr string
  | JArr "jsval list"
  | JObj "(string \<times> jsval) list"

text \<open>
  The two conversions of the JavaScript runtime that depend on the textual form of
  numbers are parameters of the model: \<open>Number::toString\<close> and the parsing of a string
  as a number (\<open>None\<close> is NaN).
\<close>

record JSRuntime =
  NumberToString :: "rat \<Rightarrow> string"
  StringToNumber :: "string \<Rightarrow> rat option"

fun join :: "string \<Rightarrow> string list \<Rightarrow> string" where
  "join sep [] = []"
| "join sep [x] = x"
| "join sep (x # y # ys) = x @ sep @ join sep (y # ys)"

fun typeof :: "jsval \<Rightarrow> string" where
  "typeof JUndefined = ''undefined''"
| "typeof JNull = ''object''"
| "typeof (JBool b) = ''boolean''"
| "typeof (JNum n) = ''number''"
| "typeof (JStr s) = ''string''"
| "typeof (JArr xs) = ''object''"
| "typeof (JObj kvs) = ''object''"

fun truthy :: "jsval \<Rightarrow> bool" where
  "truthy JUndefined = False"
| "truthy JNull = False"
| "truthy (JBool b) = b"
| "truthy (JNum n) = (n \<noteq> 0)"
| "truthy (JStr s) = (s \<noteq> [])"
| "truthy (JArr xs) = True"
| "truthy (JObj kvs) = True"

fun isArray :: "jsval \<Rightarrow> bool" where
  "isArray (JArr xs) = True"
| "isArray v = False"

text \<open>
  Property read \<open>v[k]\<close> for the data property names used below (none of them an array
  index, \<open>length\<close> or a name inherited from a prototype): an own property of an
  object, undefined otherwise.
\<close>

fun js_prop :: "jsval \<Rightarrow> string \<Rightarrow> jsval" where
  "js_prop (JObj kvs) k = (case map_of kvs k of Some v \<Rightarrow> v | None \<Rightarrow> JUndefined)"
| "js_prop v k = JUndefined"

fun Object_keys :: "jsval \<Rightarrow> string list" where
  "Object_keys (JObj kvs) = map fst kvs"
| "Object_keys v = []"

text \<open>The operator \<open>a ?? b\<close>.\<close>

definition nullish :: "jsval \<Rightarrow> jsval \<Rightarrow> jsval" where
  "nullish a b = (if a = JUndefined \<or> a = JNull then b else a)"

text \<open>String conversion, as a template literal does it.\<close>

fun ToString :: "JSRuntime \<Rightarrow> jsval \<Rightarrow> string" where
  "ToString rt JUndefined = ''undefined''"
| "ToString rt JNull = ''null''"
| "ToString rt (JBool b) = (if b then ''true'' else ''false'')"
| "ToString rt (JNum n) = NumberToString rt n"
| "ToString rt (JStr s) = s"
| "ToString rt (JArr xs) =
     join '','' (map (\<lambda>x. if x = JUndefined \<or> x = JNull then [] else ToString rt x) xs)"
| "ToString rt (JObj kvs) = ''[object Object]''"

text \<open>Numeric conversion; \<open>None\<close> is NaN.\<close>

fun ToNumber :: "JSRuntime \<Rightarrow> jsval \<Rightarrow> rat option" where
  "ToNumber rt JUndefined = None"
| "ToNumber rt JNull = Some 0"
| "ToNumber rt (JBool b) = Some (if b then 1 else 0)"
| "ToNumber rt (JNum n) = Some n"
| "ToNumber rt (JStr s) = StringToNumber rt s"
| "ToNumber rt (JArr xs) = StringToNumber rt (ToString rt (JArr xs))"
| "ToNumber rt (JObj kvs) = StringToNumber rt (ToString rt (JObj kvs))"

text \<open>
  Arithmetic and numeric comparison on converted operands: a comparison with NaN is
  false, arithmetic on NaN is NaN. Every quotient read below has a positive divisor
  (the callers check the threshold is above zero), so the infinities of a division by
  zero are not modelled and such a quotient is NaN here.
\<close>

fun js_ge :: "rat option \<Rightarrow> rat option \<Rightarrow> bool" where
  "js_ge (Some a) (Some b) = (a \<ge> b)"
| "js_ge a b = False"

fun js_gt :: "rat option \<Rightarrow> rat option \<Rightarrow> bool" where
  "js_gt (Some a) (Some b) = (a > b)"
| "js_gt a b = False"

fun js_le :: "rat option \<Rightarrow> rat option \<Rightarrow> bool" where
  "js_le (Some a) (Some b) = (a \<le> b)"
| "js_le a b = False"

fun js_sub :: "rat option \<Rightarrow> rat option \<Rightarrow> rat option" where
  "js_sub (Some a) (Some b) = Some (a - b)"
| "js_sub a b = None"

fun js_div :: "rat option \<Rightarrow> rat option \<Rightarrow> rat option" where
  "js_div (Some a) (Some b) = (if b = 0 then None else Some (a / b))"
| "js_div a b = None"

text \<open>\<open>String.prototype.includes\<close>.\<close>

fun starts_with :: "string \<Rightarrow> string \<Rightarrow> bool" where
  "starts_with s [] = True"
| "starts_with [] (p # ps) = False"
| "starts_with (c # cs) (p # ps) = (c = p \<and> starts_with cs ps)"

fun str_includes :: "string \<Rightarrow> string \<Rightarrow> bool" where
  "str_includes [] p = (p = [])"
| "str_includes (c # cs) p = (starts_with (c # cs) p \<or> str_includes cs p)"

text \<open>\<open>String.prototype.toUpperCase\<close> on ASCII text.\<close>

definition toUpperCase :: "string \<Rightarrow> string" where
  "toUpperCase s =
     map (\<lambda>c. let n = (of_char c :: nat) in if 97 \<le> n \<and> n \<le> 122 then char_of (n - 32) else c) s"

text \<open>\<open>Array.prototype.indexOf\<close>: the first position of the element, or -1.\<close>

fun indexOf :: "'a list \<Rightarrow> 'a \<Rightarrow> int" where
  "indexOf [] x = -1"
| "indexOf (y # ys) x =
     (if y = x then 0 else (let i = indexOf ys x in if i < 0 then -1 else i + 1))"

section \<open>Victory urgency analysis (utils/victory-urgency)\<close>

datatype UrgencyLevel = none | approaching | imminent | critical

fun urgencyString :: "UrgencyLevel \<Rightarrow> string" where
  "urgencyString none = ''none''"
| "urgencyString approaching = ''approaching''"
| "urgencyString imminent = ''imminent''"
| "urgencyString critical = ''critical''"

text \<open>
  The result of one analysis, \<open>{ urgency, detail }\<close>; the clinch and threat entries
  spread it into a larger object, which is a record extension here.
\<close>

record Analysis =
  urgency :: UrgencyLevel
  detail :: string

record VictoryClinchInfo = Analysis +
  victoryType :: string

record OpponentThreatInfo = VictoryClinchInfo +
  playerName :: string

record VictoryUrgencyResult =
  selfClinch :: "VictoryClinchInfo list"
  opponentThreats :: "OpponentThreatInfo list"
  urgencyLevel :: UrgencyLevel

definition maxUrgency :: "UrgencyLevel \<Rightarrow> UrgencyLevel \<Rightarrow> UrgencyLevel" where
  "maxUrgency a b =
     (let order = [none, approaching, imminent, critical]
      in if indexOf order a \<ge> indexOf order b then a else b)"

definition analyzeDomination :: "JSRuntime \<Rightarrow> string \<Rightarrow> jsval \<Rightarrow> jsval \<Rightarrow> Analysis option" where
  "analyzeDomination rt player data capitalsNeeded =
     (let playerData = js_prop data player in
      if \<not> truthy playerData \<or> typeof playerData \<noteq> ''object'' then None
      else
        let capitals = nullish (nullish (js_prop playerData ''CapitalsHeld'') (js_prop playerData ''Capitals'')) (JNum 0) in
        if typeof capitals \<noteq> ''number'' \<or> js_le (ToNumber rt capitals) (Some 0) then None
        else
          let ratio = js_div (ToNumber rt capitals) (ToNumber rt capitalsNeeded);
              d = ''Holds '' @ ToString rt capitals @ ''/'' @ ToString rt capitalsNeeded @ '' capitals needed''
          in if js_ge (ToNumber rt capitals) (js_sub (ToNumber rt capitalsNeeded) (Some 1))
               then Some \<lparr>urgency = critical, detail = d\<rparr>
             else if js_ge (ToNumber rt capitals) (js_sub (ToNumber rt capitalsNeeded) (Some 2))
               then Some \<lparr>urgency = imminent, detail = d\<rparr>
             else if js_ge ratio (Some 0.5)
               then Some \<lparr>urgency = approaching, detail = d\<rparr>
             else None)"

definition analyzeScience :: "JSRuntime \<Rightarrow> string \<Rightarrow> jsval \<Rightarrow> Analysis option" where
  "analyzeScience rt player data =
     (let playerData = js_prop data player in
      if \<not> truthy playerData \<or> typeof playerData \<noteq> ''object'' then None
      else
        let parts = nullish (nullish (js_prop playerData ''SpaceshipParts'') (js_prop playerData ''Parts'')) (JNum 0);
            hasApollo = nullish (nullish (js_prop playerData ''HasApolloProgram'') (js_prop playerData ''Apollo'')) (JBool False)
        in
        if \<not> truthy hasApollo \<and> parts = JNum 0 then None
        else
          let d = ''Apollo complete, '' @ ToString rt parts @ ''/6 spaceship parts built''
          in if js_ge (ToNumber rt parts) (Some 5)
               then Some \<lparr>urgency = critical, detail = d\<rparr>
             else if js_ge (ToNumber rt parts) (Some 4)
               then Some \<lparr>urgency = imminent, detail = d\<rparr>
             else if truthy hasApollo \<and> js_ge (ToNumber rt parts) (Some 2)
               then Some \<lparr>urgency = approaching, detail = d\<rparr>
             else None)"

definition analyzeCultural :: "JSRuntime \<Rightarrow> string \<Rightarrow> jsval \<Rightarrow> jsval \<Rightarrow> Analysis option" where
  "analyzeCultural rt player data civsNeeded =
     (let playerData = js_prop data player in
      if \<not> truthy playerData \<or> typeof playerData \<noteq> ''object'' then None
      else
        let influenced = nullish (nullish (js_prop playerData ''CivsInfluenced'') (js_prop playerData ''Influenced'')) (JNum 0) in
        if typeof influenced \<noteq> ''number'' \<or> js_le (ToNumber rt influenced) (Some 0) then None
        else
          let ratio = js_div (ToNumber rt influenced) (ToNumber rt civsNeeded);
              d = ''Influential over '' @ ToString rt influenced @ ''/'' @ ToString rt civsNeeded @ '' civilizations''
          in if js_ge (ToNumber rt influenced) (js_sub (ToNumber rt civsNeeded) (Some 1))
               then Some \<lparr>urgency = critical, detail = d\<rparr>
             else if js_ge (ToNumber rt influenced) (js_sub (ToNumber rt civsNeeded) (Some 2))
               then Some \<lparr>urgency = imminent, detail = d\<rparr>
             else if js_ge ratio (Some 0.5)
               then Some \<lparr>urgency = approaching, detail = d\<rparr>
             else None)"

definition analyzeDiplomatic :: "JSRuntime \<Rightarrow> string \<Rightarrow> jsval \<Rightarrow> jsval \<Rightarrow> Analysis option" where
  "analyzeDiplomatic rt player data votesNeeded =
     (let playerData = js_prop data player in
      if \<not> truthy playerData \<or> typeof playerData \<noteq> ''object'' then None
      else
        let votes = nullish (nullish (js_prop playerData ''Votes'') (js_prop playerData ''Delegates'')) (JNum 0) in
        if typeof votes \<noteq> ''number'' \<or> js_le (ToNumber rt votes) (Some 0) then None
        else
          let ratio = js_div (ToNumber rt votes) (ToNumber rt votesNeeded);
              votingSoon = (case js_prop data ''Status'' of JStr s \<Rightarrow> str_includes s ''Voting Now'' | _ \<Rightarrow> False);
              d = ToString rt votes @ ''/'' @ ToString rt votesNeeded
          in if js_ge ratio (Some 0.9) \<and> votingSoon
               then Some \<lparr>urgency = critical, detail = d @ '' votes, voting now''\<rparr>
             else if js_ge ratio (Some 0.9)
               then Some \<lparr>urgency = critical, detail = d @ '' votes needed''\<rparr>
             else if js_ge ratio (Some 0.75)
               then Some \<lparr>urgency = imminent, detail = d @ '' votes needed''\<rparr>
             else if js_ge ratio (Some 0.6)
               then Some \<lparr>urgency = approaching, detail = d @ '' votes needed''\<rparr>
             else None)"

record Thresholds =
  capitalsNeeded :: jsval
  civsNeeded :: jsval
  votesNeeded :: jsval

definition extractThresholds :: "jsval \<Rightarrow> Thresholds" where
  "extractThresholds data =
     \<lparr>capitalsNeeded = nullish (js_prop data ''CapitalsNeeded'') (JNum 0),
      civsNeeded = nullish (js_prop data ''CivsNeeded'') (JNum 0),
      votesNeeded = nullish (js_prop data ''VotesNeeded'') (JNum 0)\<rparr>"

text \<open>
  The body shared by the four loops of \<open>analyzeVictoryUrgency\<close>: a non-null analysis
  is pushed to \<open>selfClinch\<close> when the player is the caller's own civilization and to
  \<open>opponentThreats\<close> otherwise, and the overall level is raised to it.
\<close>

definition pushAnalysis ::
  "string \<Rightarrow> string \<Rightarrow> string \<Rightarrow> Analysis \<Rightarrow> VictoryUrgencyResult \<Rightarrow> VictoryUrgencyResult" where
  "pushAnalysis vtype selfCivName player analysis result =
     (let result1 =
        (if player = selfCivName
         then result\<lparr>selfClinch := selfClinch result @
                [\<lparr>urgency = urgency analysis, detail = detail analysis, victoryType = vtype\<rparr>]\<rparr>
         else result\<lparr>opponentThreats := opponentThreats result @
                [\<lparr>urgency = urgency analysis, detail = detail analysis, victoryType = vtype,
                  playerName = player\<rparr>]\<rparr>)
      in result1\<lparr>urgencyLevel := maxUrgency (urgencyLevel result1) (urgency analysis)\<rparr>)"

text \<open>
  One \<open>for (const playerName of Object.keys(data))\<close> loop: the keys in \<open>skip\<close> are
  passed over (\<open>continue\<close>), every other key is analysed.
\<close>

definition analyzeKeys ::
  "string \<Rightarrow> string list \<Rightarrow> (string \<Rightarrow> Analysis option) \<Rightarrow> string \<Rightarrow> string list
     \<Rightarrow> VictoryUrgencyResult \<Rightarrow> VictoryUrgencyResult" where
  "analyzeKeys vtype skip analyse selfCivName keys result =
     fold (\<lambda>player res.
             if player \<in> set skip then res
             else (case analyse player of
                     None \<Rightarrow> res
                   | Some analysis \<Rightarrow> pushAnalysis vtype selfCivName player analysis res))
          keys result"

definition isPlainObject :: "jsval \<Rightarrow> bool" where
  "isPlainObject v = (truthy v \<and> typeof v = ''object'' \<and> \<not> isArray v)"

definition analyzeVictoryUrgency ::
  "JSRuntime \<Rightarrow> jsval \<Rightarrow> string option \<Rightarrow> VictoryUrgencyResult" where
  "analyzeVictoryUrgency rt victory selfCivName =
     (let result = \<lparr>selfClinch = [], opponentThreats = [], urgencyLevel = none\<rparr> in
      if \<not> truthy victory \<or> selfCivName = None \<or> selfCivName = Some [] then result
      else
        let self = (case selfCivName of Some s \<Rightarrow> s | None \<Rightarrow> []);
            domData = js_prop victory ''DominationVictory'';
            result =
              (if isPlainObject domData then
                 (let cn = capitalsNeeded (extractThresholds domData) in
                  if js_gt (ToNumber rt cn) (Some 0)
                  then analyzeKeys ''Domination'' [''CapitalsNeeded'', ''Contender'']
                         (\<lambda>player. analyzeDomination rt player domData cn) self
                         (Object_keys domData) result
                  else result)
               else result);
            sciData = js_prop victory ''ScienceVictory'';
            result =
              (if isPlainObject sciData then
                 analyzeKeys ''Science'' [''Contender'']
                   (\<lambda>player. analyzeScience rt player sciData) self
                   (Object_keys sciData) result
               else result);
            culData = js_prop victory ''CulturalVictory'';
            result =
              (if isPlainObject culData then
                 (let cn = civsNeeded (extractThresholds culData) in
                  if js_gt (ToNumber rt cn) (Some 0)
                  then analyzeKeys ''Cultural'' [''CivsNeeded'', ''Contender'']
                         (\<lambda>player. analyzeCultural rt player culData cn) self
                         (Object_keys culData) result
                  else result)
               else result);
            dipData = js_prop victory ''DiplomaticVictory'';
            result =
              (if isPlainObject dipData then
                 (let vn = votesNeeded (extractThresholds dipData) in
                  if js_gt (ToNumber rt vn) (Some 0)
                  then analyzeKeys ''Diplomatic''
                         [''VotesNeeded'', ''Status'', ''ActiveResolutions'', ''Proposals'', ''Contender'']
                         (\<lambda>player. analyzeDiplomatic rt player dipData vn) self
                         (Object_keys dipData) result
                  else result)
               else result)
        in result)"

text \<open>
  \<open>formatUrgencySection\<close>. Lines are joined with a line feed; the dash of a threat
  line is U+2014, three bytes in UTF-8.
\<close>

definition formatClinch :: "VictoryClinchInfo \<Rightarrow> string" where
  "formatClinch clinch =
     ''- **'' @ victoryType clinch @ ''** ['' @ toUpperCase (urgencyString (urgency clinch)) @ '']: ''
       @ detail clinch"

definition formatThreat :: "OpponentThreatInfo \<Rightarrow> string" where
  "formatThreat threat =
     ''- **'' @ playerName threat @ ''** '' @ [CHR 0xE2, CHR 0x80, CHR 0x94] @ '' '' @ victoryType threat
       @ '' ['' @ toUpperCase (urgencyString (urgency threat)) @ '']: '' @ detail threat"

definition formatUrgencySection :: "VictoryUrgencyResult \<Rightarrow> string" where
  "formatUrgencySection result =
     (if urgencyLevel result = none then []
      else
        let sections = [];
            sections =
              (if length (selfClinch result) > 0
               then sections
                    @ [''# VICTORY WITHIN REACH'',
                       ''You are close to winning. Prioritize closing out the game.'']
                    @ map formatClinch (selfClinch result) @ [[]]
               else sections);
            sections =
              (if length (opponentThreats result) > 0
               then sections
                    @ [''# URGENT THREAT'',
                       ''An opponent is approaching victory. Consider countermeasures immediately.'']
                    @ map formatThreat (opponentThreats result) @ [[]]
               else sections)
        in join [CHR 0x0A] sections)"

text \<open>
  The total order of the levels as the claim names it, \<open>none < approaching < imminent <
  critical\<close>, and the urgencies of all the warnings a result holds.
\<close>

fun urgency_rank :: "UrgencyLevel \<Rightarrow> nat" where
  "urgency_rank none = 0"
| "urgency_rank approaching = 1"
| "urgency_rank imminent = 2"
| "urgency_rank critical = 3"

definition collectedUrgencies :: "VictoryUrgencyResult \<Rightarrow> UrgencyLevel list" where
  "collectedUrgencies result =
     map urgency (selfClinch result) @ map urgency (opponentThreats result)"

text \<open>
  Decimal digits of a natural number, and a runtime that prints integers in decimal
  (as JavaScript prints integers below \<open>10^21\<close>) and reads no string as a number.
  It is used to evaluate the model on concrete reports whose numbers are integers.
\<close>

fun showNat :: "nat \<Rightarrow> string" where
  "showNat n =
     (if n < 10 then [''0123456789'' ! n] else showNat (n div 10) @ [''0123456789'' ! (n mod 10)])"

declare showNat.simps [simp del]

definition showInteger :: "rat \<Rightarrow> string" where
  "showInteger q = (let i = \<lfloor>q\<rfloor> in (if i < 0 then ''-'' else []) @ showNat (nat \<bar>i\<bar>))"

definition integerRuntime :: JSRuntime where
  "integerRuntime = \<lparr>NumberToString = showInteger, StringToNumber = (\<lambda>s. None)\<rparr>"

text \<open>A report in which Rome holds 3 of 4 capitals and Egypt 2, read by Rome.\<close>

definition dominationExample :: jsval where
  "dominationExample =
     JObj [(''DominationVictory'',
              JObj [(''CapitalsNeeded'', JNum 4), (''Contender'', JNull),
                    (''Rome'', JObj [(''CapitalsHeld'', JNum 3)]),
                    (''Egypt'', JObj [(''CapitalsHeld'', JNum 2)]),
                    (''Siam'', JObj [(''CapitalsHeld'', JNum 1)])]),
           (''ScienceVictory'', JStr ''Not yet unlocked''),
           (''CulturalVictory'', JStr ''Not available''),
           (''DiplomaticVictory'', JStr ''Not yet unlocked'')]"

text \<open>
  The loop invariant of \<open>analyzeVictoryUrgency\<close>: the level of the result is
  \<open>none\<close> or the urgency of a collected warning, and no collected warning ranks above it.
\<close>

definition urgency_inv :: "VictoryUrgencyResult \<Rightarrow> bool" where
  "urgency_inv r =
     (urgencyLevel r \<in> set (none # collectedUrgencies r)
      \<and> list_all (\<lambda>u. urgency_rank u \<le> urgency_rank (urgencyLevel r)) (collectedUrgencies r))"

section \<open>Ledger staleness detection (utils/strategic-warnings)\<close>

text \<open>
  A game state snapshot, with the fields \<open>detectLedgerStaleness\<close> reads: the turn and
  the optional strategic ledger, an object. \<open>gameStates\<close> is a \<open>Record<number,
  GameState>\<close>: a list of its entries, one per key.
\<close>

record GameState =
  turn :: int
  ledger :: "(string \<times> jsval) list option"

record StalenessWarning =
  field :: string
  turnSpan :: int

text \<open>
  The inner loop over \<open>turns\<close>: the serialized value of the field in every state whose
  ledger exists and has the field. \<open>JSON.stringify\<close> is the parameter \<open>stringify\<close>.
  Every turn of the loop is a key of \<open>gameStates\<close>, so the lookup finds a state.
\<close>

definition ledgerValues ::
  "(jsval \<Rightarrow> 'j) \<Rightarrow> (int \<times> GameState) list \<Rightarrow> string \<Rightarrow> int list \<Rightarrow> 'j list" where
  "ledgerValues stringify gameStates fld turns =
     fold (\<lambda>t values.
             case map_of gameStates t of
               None \<Rightarrow> values
             | Some st \<Rightarrow>
                 (case ledger st of
                    None \<Rightarrow> values
                  | Some l \<Rightarrow>
                      (case map_of l fld of
                         None \<Rightarrow> values
                       | Some v \<Rightarrow> values @ [stringify v])))
          turns []"

definition detectLedgerStaleness ::
  "(jsval \<Rightarrow> 'j) \<Rightarrow> (int \<times> GameState) list \<Rightarrow> int \<Rightarrow> int option \<Rightarrow> StalenessWarning list" where
  "detectLedgerStaleness stringify gameStates currentTurn thresholdArg =
     (let threshold = (case thresholdArg of None \<Rightarrow> 10 | Some t \<Rightarrow> t);
          warnings = [];
          turns = sort (filter (\<lambda>t. t \<le> currentTurn) (map fst gameStates))
      in
      if length turns < 2 then warnings
      else
        let span = turns ! (length turns - 1) - turns ! 0 in
        if span < threshold then warnings
        else
          let fieldsToCheck = [''ActivePlan'', ''ThreatAssessment''] in
          fold (\<lambda>fld warnings.
                  let values = ledgerValues stringify gameStates fld turns in
                  if length values < 2 then warnings
                  else
                    let allSame = list_all (\<lambda>v. v = values ! 0) values in
                    if allSame then warnings @ [\<lparr>field = fld, turnSpan = span\<rparr>]
                    else warnings)
               fieldsToCheck warnings)"

text \<open>
  The claim's words: the turns at or before the current one, the span from the earliest
  to the latest of them, the serialized values of a field in the states at those turns
  that contain it, and staleness of a field: at least two such states, all with the same
  serialized value.
\<close>

definition consideredTurns :: "(int \<times> GameState) list \<Rightarrow> int \<Rightarrow> int list" where
  "consideredTurns gameStates currentTurn = filter (\<lambda>t. t \<le> currentTurn) (map fst gameStates)"

definition consideredSpan :: "(int \<times> GameState) list \<Rightarrow> int \<Rightarrow> int" where
  "consideredSpan gameStates currentTurn =
     Max (set (consideredTurns gameStates currentTurn)) - Min (set (consideredTurns gameStates currentTurn))"

definition serializedField :: "(jsval \<Rightarrow> 'j) \<Rightarrow> string \<Rightarrow> GameState \<Rightarrow> 'j list" where
  "serializedField stringify fld st =
     (case ledger st of
        None \<Rightarrow> []
      | Some l \<Rightarrow> (case map_of l fld of None \<Rightarrow> [] | Some v \<Rightarrow> [stringify v]))"

definition fieldValues ::
  "(jsval \<Rightarrow> 'j) \<Rightarrow> (int \<times> GameState) list \<Rightarrow> int \<Rightarrow> string \<Rightarrow> 'j list" where
  "fieldValues stringify gameStates currentTurn fld =
     concat (map (\<lambda>(t, st). if t \<le> currentTurn then serializedField stringify fld st else [])
                 gameStates)"

definition staleField ::
  "(jsval \<Rightarrow> 'j) \<Rightarrow> (int \<times> GameState) list \<Rightarrow> int \<Rightarrow> string \<Rightarrow> bool" where
  "staleField stringify gameStates currentTurn fld =
     (let vs = fieldValues stringify gameStates currentTurn fld
      in 2 \<le> length vs \<and> (\<forall>v \<in> set vs. \<forall>w \<in> set vs. v = w))"

text \<open>What one turn of the inner loop contributes to the collected values.\<close>

definition turnValues :: "(jsval \<Rightarrow> 'j) \<Rightarrow> (int \<times> GameState) list \<Rightarrow> string \<Rightarrow> int \<Rightarrow> 'j list" where
  "turnValues stringify gameStates fld t =
     (case map_of gameStates t of None \<Rightarrow> [] | Some st \<Rightarrow> serializedField stringify fld st)"

text \<open>
  Three snapshots, at turns 12, 1 and 30, whose active plan never changes while the
  threat assessment does.
\<close>

definition exampleStates :: "(int \<times> GameState) list" where
  "exampleStates =
     [(12, \<lparr>turn = 12, ledger = Some [(''ActivePlan'', JStr ''rush''), (''ThreatAssessment'', JStr ''low'')]\<rparr>),
      (1, \<lparr>turn = 1, ledger = Some [(''ActivePlan'', JStr ''rush''), (''ThreatAssessment'', JStr ''high'')]\<rparr>),
      (30, \<lparr>turn = 30, ledger = Some [(''ActivePlan'', JStr ''boom''), (''ThreatAssessment'', JNull)]\<rparr>)]"

section \<open>Knowledge schema (knowledge/schema/base)\<close>

definition MaxMajorCivs :: nat where
  "MaxMajorCivs = 22"

text \<open>
  The interface \<open>PlayerVisibility\<close>: one numeric column per player slot, named
  \<open>Player0\<close> to \<open>Player21\<close> ("whether player N knows this").
\<close>

record PlayerVisibility =
  Player0 :: int
  Player1 :: int
  Player2 :: int
  Player3 :: int
  Player4 :: int
  Player5 :: int
  Player6 :: int
  Player7 :: int
  Player8 :: int
  Player9 :: int
  Player10 :: int
  Player11 :: int
  Player12 :: int
  Player13 :: int
  Player14 :: int
  Player15 :: int
  Player16 :: int
  Player17 :: int
  Player18 :: int
  Player19 :: int
  Player20 :: int
  Player21 :: int

text \<open>The property names of the interface, and the flags of a record, in declaration order.\<close>

definition PlayerVisibility_columns :: "string list" where
  "PlayerVisibility_columns =
     [''Player0'', ''Player1'', ''Player2'', ''Player3'', ''Player4'', ''Player5'',
      ''Player6'', ''Player7'', ''Player8'', ''Player9'', ''Player10'', ''Player11'',
      ''Player12'', ''Player13'', ''Player14'', ''Player15'', ''Player16'', ''Player17'',
      ''Player18'', ''Player19'', ''Player20'', ''Player21'']"

definition PlayerVisibility_flags :: "'a PlayerVisibility_scheme \<Rightarrow> int list" where
  "PlayerVisibility_flags v =
     [Player0 v, Player1 v, Player2 v, Player3 v, Player4 v, Player5 v,
      Player6 v, Player7 v, Player8 v, Player9 v, Player10 v, Player11 v,
      Player12 v, Player13 v, Player14 v, Player15 v, Player16 v, Player17 v,
      Player18 v, Player19 v, Player20 v, Player21 v]"

text \<open>
  \<open>TimedKnowledge extends Knowledge, PlayerVisibility\<close>: the visibility columns, the
  generated \<open>ID\<close> of \<open>Knowledge\<close>, and the columns of its own.
  \<open>MutableKnowledge extends TimedKnowledge\<close>.
\<close>

record TimedKnowledge = PlayerVisibility +
  ID :: int
  Turn :: int
  Payload :: jsval
  CreatedAt :: int

record MutableKnowledge = TimedKnowledge +
  Key :: int
  Version :: int
  IsLatest :: int
  Changes :: "string list"

text \<open>
  \<open>PublicKnowledge extends Knowledge\<close>; its columns carry a prefix here because a
  record field name is global.
\<close>

record PublicKnowledge =
  Public_ID :: int
  Public_Key :: int
  Public_Data :: jsval

text \<open>A visibility record from the flag of each slot.\<close>

definition visibilityOf :: "(nat \<Rightarrow> int) \<Rightarrow> PlayerVisibility" where
  "visibilityOf f =
     \<lparr>Player0 = f 0, Player1 = f 1, Player2 = f 2, Player3 = f 3,
       Player4 = f 4, Player5 = f 5, Player6 = f 6, Player7 = f 7,
       Player8 = f 8, Player9 = f 9, Player10 = f 10, Player11 = f 11,
       Player12 = f 12, Player13 = f 13, Player14 = f 14, Player15 = f 15,
       Player16 = f 16, Player17 = f 17, Player18 = f 18, Player19 = f 19,
       Player20 = f 20, Player21 = f 21\<rparr>"

text \<open>Rows built from their columns.\<close>

definition timedRow :: "int \<Rightarrow> int \<Rightarrow> PlayerVisibility \<Rightarrow> jsval \<Rightarrow> int \<Rightarrow> TimedKnowledge" where
  "timedRow i t visibility payload now =
     PlayerVisibility.extend visibility (TimedKnowledge.fields i t payload now)"

definition mutableRow ::
  "TimedKnowledge \<Rightarrow> int \<Rightarrow> int \<Rightarrow> int \<Rightarrow> string list \<Rightarrow> MutableKnowledge" where
  "mutableRow row k v latest changes =
     TimedKnowledge.extend row (MutableKnowledge.fields k v latest changes)"

text \<open>An event of turn 5 that only player 3 knows, and version 2 of an entity keyed 3.\<close>

definition exampleEvent :: TimedKnowledge where
  "exampleEvent = timedRow 1 5 (visibilityOf (\<lambda>i. if i = 3 then 1 else 0)) JNull 0"

definition exampleSummary :: MutableKnowledge where
  "exampleSummary = mutableRow exampleEvent 3 2 1 [''Score'']"

section \<open>Knowledge store reads and appends\<close>

text \<open>
  The store that serves \<open>getMutableKnowledge\<close> and \<open>getMutableKnowledgeHistory\<close> is
  not among the sources; its operations are modelled from the specification, over the
  rows of the schema above. A table is the list of its rows in insertion order.
\<close>

datatype StoreError = TransportError | CapacityError | ValidationError | ConflictError

text \<open>
  Modelled from the spec: the visibility test of a read (the store is missing). The
  bit of observer \<open>O\<close> is set on a row when the flag of slot \<open>O\<close> is nonzero; there is
  no slot at or beyond \<open>MaxMajorCivs\<close>.
\<close>

definition visibleTo :: "nat \<Rightarrow> 'a PlayerVisibility_scheme \<Rightarrow> bool" where
  "visibleTo observer row =
     (observer < MaxMajorCivs \<and> PlayerVisibility_flags row ! observer \<noteq> 0)"

text \<open>
  Modelled from the spec: the last turn recorded in a Timed record stream (the store
  is missing); none for an empty stream.
\<close>

definition lastTurn :: "TimedKnowledge list \<Rightarrow> int option" where
  "lastTurn stream = (if stream = [] then None else Some (Turn (last stream)))"

text \<open>
  Modelled from the spec: \<open>appendTimed(turn, visibility, payload)\<close> (the store is
  missing), "pure insert; fails if turn is not monotonically non-decreasing for the same
  record stream", the failure being the ValidationError of an out-of-order append. The
  generated \<open>ID\<close> counts the rows; \<open>now\<close> is the creation time.
\<close>

definition appendTimed ::
  "int \<Rightarrow> PlayerVisibility \<Rightarrow> jsval \<Rightarrow> int \<Rightarrow> TimedKnowledge list
     \<Rightarrow> StoreError + TimedKnowledge list" where
  "appendTimed t visibility payload now stream =
     (let row = timedRow (int (length stream) + 1) t visibility payload now in
      case lastTurn stream of
        None \<Rightarrow> Inr (stream @ [row])
      | Some l \<Rightarrow> if t < l then Inl ValidationError else Inr (stream @ [row]))"

text \<open>
  Modelled from the spec: a sequence of \<open>appendTimed\<close> calls on one stream (the store
  is missing), each call given as turn, visibility, payload and creation time; the
  first failure ends the sequence.
\<close>

fun appendAll ::
  "(int \<times> PlayerVisibility \<times> jsval \<times> int) list \<Rightarrow> TimedKnowledge list
     \<Rightarrow> StoreError + TimedKnowledge list" where
  "appendAll [] stream = Inr stream"
| "appendAll ((t, visibility, payload, now) # calls) stream =
     (case appendTimed t visibility payload now stream of
        Inl e \<Rightarrow> Inl e
      | Inr stream' \<Rightarrow> appendAll calls stream')"

text \<open>
  Modelled from the spec: \<open>getLatest(key)\<close> on a Mutable table for an observer (the
  store is missing): the row of the key that is flagged IsLatest, "filtered to only
  return records whose visibility bit is set for the requesting observer".
\<close>

definition getLatest ::
  "'a MutableKnowledge_scheme list \<Rightarrow> int \<Rightarrow> nat \<Rightarrow> 'a MutableKnowledge_scheme option" where
  "getLatest table k observer =
     find (\<lambda>row. Key row = k \<and> IsLatest row \<noteq> 0 \<and> visibleTo observer row) table"

text \<open>
  Modelled from the spec: \<open>getHistory(key, limit)\<close> on a Mutable table for an observer
  (the store is missing): the rows of the key visible to the observer, as an "ordered
  sequence, newest first", the newest being the highest version, cut to the limit when
  one is given.
\<close>

definition getHistory ::
  "'a MutableKnowledge_scheme list \<Rightarrow> int \<Rightarrow> nat option \<Rightarrow> nat \<Rightarrow> 'a MutableKnowledge_scheme list" where
  "getHistory table k limit observer =
     (let visible = filter (\<lambda>row. Key row = k \<and> visibleTo observer row) table;
          newestFirst = rev (sort_key Version visible)
      in case limit of None \<Rightarrow> newestFirst | Some n \<Rightarrow> take n newestFirst)"

text \<open>
  Modelled from the spec: the read of a Public record (the store is missing): "Public
  records bypass this filter", so the observer is not consulted.
\<close>

definition getPublic :: "PublicKnowledge list \<Rightarrow> int \<Rightarrow> nat \<Rightarrow> PublicKnowledge option" where
  "getPublic table k observer = find (\<lambda>row. Public_Key row = k) table"

section \<open>Strategic ledger tool (tools/knowledge/get-strategic-ledger)\<close>

text \<open>
  The rows of the \<open>StrategyChanges\<close> table, and an entry of the decision audit.
  \<open>Rationale\<close> is read with \<open>?.\<close>, hence optional.
\<close>

record StrategyChange = MutableKnowledge +
  GrandStrategy :: "string option"
  EconomicStrategies :: "string list option"
  MilitaryStrategies :: "string list option"
  Rationale :: "string option"

record DecisionAuditEntry =
  Audit_Turn :: int
  Audit_GrandStrategy :: "string option"
  Audit_Rationale :: "string option"

text \<open>
  The part of \<open>GetStrategicLedgerTool.execute\<close> that builds the decision audit from
  the history the store returned: entries whose rationale starts with "Tweaked by
  In-Game AI" are dropped, the first five of the rest are kept.
\<close>

definition llmAuthored :: "StrategyChange \<Rightarrow> bool" where
  "llmAuthored entry =
     (case Rationale entry of
        None \<Rightarrow> True
      | Some r \<Rightarrow> \<not> starts_with r ''Tweaked by In-Game AI'')"

definition auditEntry :: "StrategyChange \<Rightarrow> DecisionAuditEntry" where
  "auditEntry entry =
     \<lparr>Audit_Turn = Turn entry, Audit_GrandStrategy = GrandStrategy entry,
      Audit_Rationale = Rationale entry\<rparr>"

definition decisionAudit :: "StrategyChange list \<Rightarrow> DecisionAuditEntry list" where
  "decisionAudit strategyHistory = map auditEntry (take 5 (filter llmAuthored strategyHistory))"

definition executeDecisionAudit :: "StrategyChange list \<Rightarrow> nat \<Rightarrow> DecisionAuditEntry list" where
  "executeDecisionAudit strategyChanges playerID =
     (let strategyHistory = getHistory strategyChanges (int playerID) None playerID
      in decisionAudit strategyHistory)"

text \<open>Example rows: three versions of the entity keyed 3, each known to player 3 only.\<close>

definition exampleVersion :: "int \<Rightarrow> int \<Rightarrow> MutableKnowledge" where
  "exampleVersion v latest = mutableRow exampleEvent 3 v latest []"

definition strategyChangeRow ::
  "MutableKnowledge \<Rightarrow> string option \<Rightarrow> string option \<Rightarrow> StrategyChange" where
  "strategyChangeRow row strategy rationale =
     MutableKnowledge.extend row (StrategyChange.fields strategy None None rationale)"

definition exampleStrategyChanges :: "StrategyChange list" where
  "exampleStrategyChanges =
     [strategyChangeRow (exampleVersion 1 0) (Some ''Conquest'') (Some ''Neighbours are weak''),
      strategyChangeRow (exampleVersion 2 0) (Some ''Culture'') (Some ''Tweaked by In-Game AI''),
      strategyChangeRow (exampleVersion 3 1) (Some ''Spaceflight'') (Some ''Apollo is within reach'')]"

section \<open>Verified properties\<close>

subsection \<open>Properties of the registry\<close>

lemma Map_has_set: "Map_has (Map_set m k v) k' = (k' = k \<or> Map_has m k')"
  by (simp add: Map_has_def Map_set_def update_conv')

lemma Map_get_set: "Map_get (Map_set m k v) k = Some v"
  by (simp add: Map_get_def Map_set_def update_conv')

lemma Map_has_delete: "Map_has (snd (Map_delete m k)) k' = (k' \<noteq> k \<and> Map_has m k')"
  by (simp add: Map_has_def Map_delete_def delete_conv')

lemma Map_has_iff: "Map_has m k = (k \<in> fst ` set m)"
  by (simp add: Map_has_def map_of_eq_None_iff)

lemma agents_register: "agents (snd (register agent r)) = AList.update (name agent) agent (agents r)"
  by (simp add: register_def Let_def Map_set_def)

lemma agents_unregister: "agents (snd (unregister nm r)) = AList.delete nm (agents r)"
  by (simp add: unregister_def Map_delete_def)

text \<open>
  Claim C9. A name is registered when the \<open>agents\<close> map holds an entry under it.
  For every agent and every registry state, \<open>register\<close> returns true exactly when
  no agent of that name was registered before the call (so a second registration under
  the same name returns false), and afterwards the name is registered and \<open>get\<close> of
  it returns exactly that agent; \<open>unregister\<close> returns true exactly when the name
  was registered, and afterwards the name is not registered and \<open>has\<close> of it is
  false. \<open>has\<close> answers exactly whether the name is registered.
\<close>

theorem register_unregister_contract:
  "fst (register agent r) = (name agent \<notin> fst ` set (agents r))
   \<and> fst (register agent r) = (\<not> has (name agent) r)
   \<and> get (name agent) (snd (register agent r)) = Some agent
   \<and> has (name agent) (snd (register agent r))
   \<and> fst ` set (agents (snd (register agent r))) = insert (name agent) (fst ` set (agents r))
   \<and> fst (register agent' (snd (register agent r)))
       = (name agent' \<noteq> name agent \<and> name agent' \<notin> fst ` set (agents r))
   \<and> fst (unregister nm r) = (nm \<in> fst ` set (agents r))
   \<and> fst (unregister nm r) = has nm r
   \<and> has nm (snd (unregister nm r)) = False
   \<and> fst ` set (agents (snd (unregister nm r))) = fst ` set (agents r) - {nm}
   \<and> fst (unregister (name agent) (snd (register agent r))) = True
   \<and> has nm r = (nm \<in> fst ` set (agents r))"
proof -
  have h: "has n q = (n \<in> fst ` set (agents q))" for n q
    by (simp add: has_def Map_has_iff)
  have dr: "fst ` set (agents (snd (register agent r))) = insert (name agent) (fst ` set (agents r))"
    unfolding agents_register by (simp add: dom_update)
  have du: "fst ` set (agents (snd (unregister nm r))) = fst ` set (agents r) - {nm}"
    unfolding agents_unregister by (auto simp add: AList.delete_eq)
  have a: "fst (register a q) = (\<not> has (name a) q)" for a q
    by (simp add: register_def has_def Let_def)
  have b: "get (name agent) (snd (register agent r)) = Some agent"
    by (simp add: register_def get_def Let_def Map_get_set)
  have c: "fst (unregister n q) = has n q" for n q
    by (simp add: unregister_def has_def Map_delete_def)
  have a1: "fst (register agent r) = (name agent \<notin> fst ` set (agents r))"
    unfolding a h by simp
  have a2: "has (name agent) (snd (register agent r))"
    unfolding h dr by simp
  have a3: "fst (register agent' (snd (register agent r)))
       = (name agent' \<noteq> name agent \<and> name agent' \<notin> fst ` set (agents r))"
    unfolding a h dr by simp
  have c1: "fst (unregister nm r) = (nm \<in> fst ` set (agents r))"
    unfolding c h by simp
  have d: "has nm (snd (unregister nm r)) = False"
    unfolding h du by simp
  have e: "fst (unregister (name agent) (snd (register agent r))) = True"
    unfolding c using a2 by simp
  from a1 a [of agent r] b a2 dr a3 c1 c [of nm r] d du e h [of nm r] show ?thesis
    by blast
qed

theorem register_unregister_contract_witness:
  "fst (register \<lparr>name = ''diplomat'', description = ''envoy''\<rparr> emptyRegistry) = True
   \<and> fst (register \<lparr>name = ''diplomat'', description = ''second envoy''\<rparr>
            (snd (register \<lparr>name = ''diplomat'', description = ''envoy''\<rparr> emptyRegistry))) = False
   \<and> get ''diplomat'' (snd (register \<lparr>name = ''diplomat'', description = ''envoy''\<rparr> emptyRegistry))
       = Some \<lparr>name = ''diplomat'', description = ''envoy''\<rparr>
   \<and> has ''diplomat'' (snd (register \<lparr>name = ''diplomat'', description = ''envoy''\<rparr> emptyRegistry)) = True
   \<and> fst (unregister ''diplomat'' (snd (register \<lparr>name = ''diplomat'', description = ''envoy''\<rparr> emptyRegistry))) = True
   \<and> fst (unregister ''diplomat'' emptyRegistry) = False
   \<and> has ''diplomat'' (snd (unregister ''diplomat''
          (snd (register \<lparr>name = ''diplomat'', description = ''envoy''\<rparr> emptyRegistry)))) = False"
proof -
  have e: "agents emptyRegistry = []" by (simp add: emptyRegistry_def)
  show ?thesis
    using register_unregister_contract
      [of "\<lparr>name = ''diplomat'', description = ''envoy''\<rparr>" emptyRegistry
          "\<lparr>name = ''diplomat'', description = ''second envoy''\<rparr>" "''diplomat''"]
      register_unregister_contract
      [of "\<lparr>name = ''diplomat'', description = ''envoy''\<rparr>"
          "snd (register \<lparr>name = ''diplomat'', description = ''envoy''\<rparr> emptyRegistry)"
          "\<lparr>name = ''diplomat'', description = ''second envoy''\<rparr>" "''diplomat''"]
    by (simp add: e)
qed

subsection \<open>Properties of the victory urgency analysis\<close>

lemma maxUrgency_rank: "urgency_rank (maxUrgency a b) = max (urgency_rank a) (urgency_rank b)"
  by (cases a; cases b) (simp_all add: maxUrgency_def)

lemma maxUrgency_either: "maxUrgency a b = a \<or> maxUrgency a b = b"
  by (simp add: maxUrgency_def Let_def)

lemma urgency_rank_inj: "urgency_rank a = urgency_rank b \<Longrightarrow> a = b"
  by (cases a; cases b) simp_all

lemma maxUrgency_commute: "maxUrgency a b = maxUrgency b a"
  by (rule urgency_rank_inj) (simp add: maxUrgency_rank max.commute)

lemma maxUrgency_none: "maxUrgency none a = a" "maxUrgency a none = a" "maxUrgency a a = a"
  by (cases a; simp add: maxUrgency_def)+

lemma urgency_inv_push:
  assumes "urgency_inv r"
  shows "urgency_inv (pushAnalysis vt self p a r)"
proof -
  let ?r' = "pushAnalysis vt self p a r"
  have lvl: "urgencyLevel ?r' = maxUrgency (urgencyLevel r) (urgency a)"
    by (simp add: pushAnalysis_def Let_def)
  have col: "set (collectedUrgencies ?r') = insert (urgency a) (set (collectedUrgencies r))"
    by (auto simp add: pushAnalysis_def Let_def collectedUrgencies_def)
  have mem: "urgencyLevel ?r' \<in> set (none # collectedUrgencies ?r')"
    using assms maxUrgency_either [of "urgencyLevel r" "urgency a"]
    unfolding urgency_inv_def lvl by (auto simp add: col)
  have "\<forall>u \<in> set (collectedUrgencies ?r'). urgency_rank u \<le> urgency_rank (urgencyLevel ?r')"
    using assms unfolding urgency_inv_def lvl col maxUrgency_rank list_all_iff
    by (auto simp add: max_def)
  with mem show ?thesis
    unfolding urgency_inv_def list_all_iff by blast
qed

lemma urgency_inv_keys:
  "urgency_inv r \<Longrightarrow> urgency_inv (analyzeKeys vt skip f self ks r)"
  unfolding analyzeKeys_def
  by (induction ks arbitrary: r) (auto simp add: urgency_inv_push split: option.splits)

lemma urgency_inv_init:
  "urgency_inv \<lparr>selfClinch = [], opponentThreats = [], urgencyLevel = none\<rparr>"
  by (simp add: urgency_inv_def collectedUrgencies_def)

lemma urgency_inv_analyze: "urgency_inv (analyzeVictoryUrgency rt victory selfCivName)"
  unfolding analyzeVictoryUrgency_def Let_def
  by (intro urgency_inv_keys urgency_inv_init
      | simp only: if_split [where P = urgency_inv] | intro conjI impI)+

text \<open>
  Claim C8. \<open>maxUrgency\<close> returns the greater of its two arguments under the order
  \<open>none < approaching < imminent < critical\<close>: it is commutative and idempotent and
  \<open>none\<close> is its identity. The \<open>urgencyLevel\<close> of the result of
  \<open>analyzeVictoryUrgency\<close> is the maximum urgency over the warnings it collected (it
  is \<open>none\<close> or one of them, and none of them ranks higher); when no warning was
  collected it is \<open>none\<close>, and \<open>formatUrgencySection\<close> then returns the empty string.
\<close>

theorem victory_urgency_is_maximum:
  fixes rt victory selfCivName
  defines "R \<equiv> analyzeVictoryUrgency rt victory selfCivName"
  shows "urgency_rank (maxUrgency a b) = max (urgency_rank a) (urgency_rank b)
   \<and> (maxUrgency a b = a \<or> maxUrgency a b = b)
   \<and> maxUrgency a b = maxUrgency b a
   \<and> maxUrgency a a = a
   \<and> maxUrgency none a = a
   \<and> maxUrgency a none = a
   \<and> urgencyLevel R \<in> set (none # collectedUrgencies R)
   \<and> (\<forall>u \<in> set (collectedUrgencies R). urgency_rank u \<le> urgency_rank (urgencyLevel R))
   \<and> (collectedUrgencies R = [] \<longrightarrow> urgencyLevel R = none \<and> formatUrgencySection R = [])"
proof -
  have inv: "urgency_inv R"
    unfolding R_def by (rule urgency_inv_analyze)
  have mem: "urgencyLevel R \<in> set (none # collectedUrgencies R)"
    using inv by (simp add: urgency_inv_def)
  have ub: "\<forall>u \<in> set (collectedUrgencies R). urgency_rank u \<le> urgency_rank (urgencyLevel R)"
    using inv by (simp add: urgency_inv_def list_all_iff)
  have empty: "collectedUrgencies R = [] \<longrightarrow> urgencyLevel R = none \<and> formatUrgencySection R = []"
  proof
    assume "collectedUrgencies R = []"
    with mem have "urgencyLevel R = none" by simp
    then show "urgencyLevel R = none \<and> formatUrgencySection R = []"
      by (simp add: formatUrgencySection_def)
  qed
  show ?thesis
    using maxUrgency_rank [of a b] maxUrgency_either [of a b] maxUrgency_commute [of a b]
      maxUrgency_none [of a] mem ub empty
    by blast
qed

theorem victory_urgency_is_maximum_witness:
  "maxUrgency imminent critical = critical
   \<and> collectedUrgencies (analyzeVictoryUrgency integerRuntime dominationExample (Some ''Rome''))
       = [critical, imminent]
   \<and> urgencyLevel (analyzeVictoryUrgency integerRuntime dominationExample (Some ''Rome'')) = critical
   \<and> collectedUrgencies (analyzeVictoryUrgency integerRuntime (JObj []) (Some ''Rome'')) = []
   \<and> urgencyLevel (analyzeVictoryUrgency integerRuntime (JObj []) (Some ''Rome'')) = none
   \<and> formatUrgencySection (analyzeVictoryUrgency integerRuntime (JObj []) (Some ''Rome'')) = []"
proof -
  have c: "collectedUrgencies (analyzeVictoryUrgency integerRuntime dominationExample (Some ''Rome''))
       = [critical, imminent]"
    by (simp add: analyzeVictoryUrgency_def dominationExample_def Let_def isPlainObject_def
        extractThresholds_def nullish_def analyzeKeys_def analyzeDomination_def pushAnalysis_def
        collectedUrgencies_def maxUrgency_def)
  have e: "collectedUrgencies (analyzeVictoryUrgency integerRuntime (JObj []) (Some ''Rome'')) = []"
    by (simp add: analyzeVictoryUrgency_def Let_def isPlainObject_def collectedUrgencies_def)
  have m: "maxUrgency imminent critical = critical"
    by (simp add: maxUrgency_def)
  from victory_urgency_is_maximum [of imminent critical integerRuntime dominationExample "Some ''Rome''"]
  have "urgencyLevel (analyzeVictoryUrgency integerRuntime dominationExample (Some ''Rome'')) = critical"
    unfolding c by (cases "urgencyLevel (analyzeVictoryUrgency integerRuntime dominationExample (Some ''Rome''))") simp_all
  moreover from victory_urgency_is_maximum [of none none integerRuntime "JObj []" "Some ''Rome''"] e
  have "urgencyLevel (analyzeVictoryUrgency integerRuntime (JObj []) (Some ''Rome'')) = none
        \<and> formatUrgencySection (analyzeVictoryUrgency integerRuntime (JObj []) (Some ''Rome'')) = []"
    by simp
  ultimately show ?thesis using c e m by simp
qed

subsection \<open>Properties of the staleness detection\<close>

lemma ledgerValues_fold:
  "fold (\<lambda>t values.
             case map_of gs t of
               None \<Rightarrow> values
             | Some st \<Rightarrow>
                 (case ledger st of
                    None \<Rightarrow> values
                  | Some l \<Rightarrow>
                      (case map_of l f of
                         None \<Rightarrow> values
                       | Some v \<Rightarrow> values @ [s v])))
          ts acc = acc @ concat (map (turnValues s gs f) ts)"
  by (induction ts arbitrary: acc)
     (auto simp add: turnValues_def serializedField_def split: option.splits)

lemma ledgerValues_concat:
  "ledgerValues s gs f ts = concat (map (turnValues s gs f) ts)"
  unfolding ledgerValues_def ledgerValues_fold by simp

lemma mset_concat_map_sort:
  "mset (concat (map c (sort ts))) = mset (concat (map c ts))"
proof -
  have "mset (concat (map c xs)) = (\<Sum>x\<in>#mset xs. mset (c x))" for xs
    by (induction xs) simp_all
  then show ?thesis by simp
qed

lemma turnValues_considered:
  "distinct (map fst gs) \<Longrightarrow>
   concat (map (turnValues s gs f) (consideredTurns gs cur)) = fieldValues s gs cur f"
proof (induction gs)
  case Nil
  then show ?case by (simp add: consideredTurns_def fieldValues_def)
next
  case (Cons p gs)
  obtain t st where p: "p = (t, st)" by (cases p)
  from Cons.prems p have nt: "t \<notin> fst ` set gs" and d: "distinct (map fst gs)" by auto
  have same: "map (turnValues s (p # gs) f) (consideredTurns gs cur)
              = map (turnValues s gs f) (consideredTurns gs cur)"
    using nt by (auto simp add: consideredTurns_def turnValues_def p)
  have hdv: "turnValues s (p # gs) f t = serializedField s f st"
    by (simp add: turnValues_def p)
  have ct: "consideredTurns (p # gs) cur = (if t \<le> cur then [t] else []) @ consideredTurns gs cur"
    by (simp add: consideredTurns_def p)
  have fv: "fieldValues s (p # gs) cur f
            = (if t \<le> cur then serializedField s f st else []) @ fieldValues s gs cur f"
    by (simp add: fieldValues_def p)
  have "concat (map (turnValues s (p # gs) f) (consideredTurns gs cur)) = fieldValues s gs cur f"
    unfolding same by (rule Cons.IH [OF d])
  then show ?case
    unfolding ct fv using hdv by simp
qed

lemma ledgerValues_mset:
  assumes "distinct (map fst gs)"
  shows "mset (ledgerValues s gs f (sort (consideredTurns gs cur))) = mset (fieldValues s gs cur f)"
proof -
  have "mset (ledgerValues s gs f (sort (consideredTurns gs cur)))
        = mset (concat (map (turnValues s gs f) (consideredTurns gs cur)))"
    unfolding ledgerValues_concat by (rule mset_concat_map_sort)
  also have "\<dots> = mset (fieldValues s gs cur f)"
    by (simp only: turnValues_considered [OF assms])
  finally show ?thesis .
qed

lemma sorted_first_last:
  fixes ys :: "int list"
  assumes "sorted ys" "ys \<noteq> []"
  shows "ys ! 0 = Min (set ys)" "ys ! (length ys - 1) = Max (set ys)"
proof -
  from assms(2) obtain y ys' where ys: "ys = y # ys'" by (cases ys) auto
  show "ys ! 0 = Min (set ys)"
    using assms(1) unfolding ys by (auto intro!: Min_eqI [symmetric])
  have l: "ys ! (length ys - 1) = last ys" using assms(2) by (simp add: last_conv_nth)
  have ub: "x \<le> last ys" if "x \<in> set ys" for x
  proof -
    from that obtain i where i: "i < length ys" "ys ! i = x" by (auto simp add: in_set_conv_nth)
    then have "ys ! i \<le> ys ! (length ys - 1)"
      using assms(1) by (intro sorted_nth_mono) auto
    with i l show ?thesis by simp
  qed
  have "Max (set ys) = last ys"
    using assms(2) ub by (intro Max_eqI) auto
  with l show "ys ! (length ys - 1) = Max (set ys)" by simp
qed

lemma sort_span:
  fixes xs :: "int list"
  assumes "xs \<noteq> []"
  shows "sort xs ! (length (sort xs) - 1) - sort xs ! 0 = Max (set xs) - Min (set xs)"
proof -
  have "length (sort xs) \<noteq> 0" using assms by simp
  then have ne: "sort xs \<noteq> []" by (simp only: length_0_conv not_False_eq_True)
  have sd: "sorted (sort xs)" by simp
  from sorted_first_last [OF sd ne] show ?thesis by simp
qed

lemma allSame_iff:
  assumes "vs \<noteq> []"
  shows "list_all (\<lambda>v. v = vs ! 0) vs = (\<forall>v \<in> set vs. \<forall>w \<in> set vs. v = w)"
proof -
  from assms have "vs ! 0 \<in> set vs" by (cases vs) auto
  then show ?thesis unfolding list_all_iff by metis
qed

lemma stale_via_mset:
  assumes "mset vs = mset ws"
  shows "(\<not> length vs < 2 \<and> list_all (\<lambda>v. v = vs ! 0) vs)
         = (2 \<le> length ws \<and> (\<forall>v \<in> set ws. \<forall>w \<in> set ws. v = w))"
proof -
  from assms have l: "length vs = length ws" by (rule mset_eq_length)
  from assms have s: "set vs = set ws" by (rule mset_eq_setD)
  show ?thesis
  proof (cases "length vs < 2")
    case True
    then show ?thesis using l by simp
  next
    case False
    then have "vs \<noteq> []" by auto
    from allSame_iff [OF this] False show ?thesis using l s by simp
  qed
qed

text \<open>
  Claim C10. With the game states keyed by distinct turns, \<open>detectLedgerStaleness\<close>
  returns no warning when fewer than two states lie at turns up to the current one, or
  when the span from the earliest to the latest of those turns is below the threshold
  (10 when none is given). Otherwise it returns, in the order \<open>ActivePlan\<close>,
  \<open>ThreatAssessment\<close>, one warning carrying that span for exactly those of the two
  fields that at least two of those states contain with one and the same serialized
  value throughout.
\<close>

theorem detectLedgerStaleness_spec:
  assumes "distinct (map fst gameStates)"
  shows "detectLedgerStaleness stringify gameStates currentTurn thresholdArg =
     (if length (consideredTurns gameStates currentTurn) < 2
         \<or> consideredSpan gameStates currentTurn < (case thresholdArg of None \<Rightarrow> 10 | Some t \<Rightarrow> t)
      then []
      else map (\<lambda>fld. \<lparr>field = fld, turnSpan = consideredSpan gameStates currentTurn\<rparr>)
               (filter (staleField stringify gameStates currentTurn)
                       [''ActivePlan'', ''ThreatAssessment'']))"
proof -
  let ?ts = "consideredTurns gameStates currentTurn"
  let ?th = "case thresholdArg of None \<Rightarrow> 10 | Some t \<Rightarrow> t"
  let ?vals = "\<lambda>f. ledgerValues stringify gameStates f (sort ?ts)"
  define step where "step = (\<lambda>span fld warnings.
                  let values = ledgerValues stringify gameStates fld (sort ?ts) in
                  if length values < 2 then warnings
                  else
                    let allSame = list_all (\<lambda>v. v = values ! 0) values in
                    if allSame then warnings @ [\<lparr>field = fld, turnSpan = span\<rparr>]
                    else warnings)"
  have unfold: "detectLedgerStaleness stringify gameStates currentTurn thresholdArg =
     (if length (sort ?ts) < 2 then []
      else if sort ?ts ! (length (sort ?ts) - 1) - sort ?ts ! 0 < ?th then []
      else fold (step (sort ?ts ! (length (sort ?ts) - 1) - sort ?ts ! 0))
                [''ActivePlan'', ''ThreatAssessment''] [])"
    unfolding detectLedgerStaleness_def consideredTurns_def step_def Let_def by (rule refl)
  have stale: "(\<not> length (?vals f) < 2 \<and> list_all (\<lambda>v. v = ?vals f ! 0) (?vals f))
               = staleField stringify gameStates currentTurn f" for f
    unfolding staleField_def Let_def
    by (rule stale_via_mset) (rule ledgerValues_mset [OF assms])
  have step_eq: "step span f w
      = (if staleField stringify gameStates currentTurn f then w @ [\<lparr>field = f, turnSpan = span\<rparr>] else w)"
    for span f w
    unfolding stale [symmetric] step_def Let_def by simp
  show ?thesis
  proof (cases "length ?ts < 2")
    case True
    then show ?thesis unfolding unfold by simp
  next
    case False
    then have ne: "?ts \<noteq> []" by auto
    have span: "sort ?ts ! (length (sort ?ts) - 1) - sort ?ts ! 0 = consideredSpan gameStates currentTurn"
      unfolding consideredSpan_def by (rule sort_span [OF ne])
    from False show ?thesis
      unfolding unfold span by (simp add: step_eq)
  qed
qed

theorem detectLedgerStaleness_spec_witness:
  "distinct (map fst exampleStates)
   \<and> detectLedgerStaleness (\<lambda>v. v) exampleStates 12 None = [\<lparr>field = ''ActivePlan'', turnSpan = 11\<rparr>]
   \<and> detectLedgerStaleness (\<lambda>v. v) exampleStates 12 (Some 12) = []
   \<and> detectLedgerStaleness (\<lambda>v. v) exampleStates 1 None = []"
proof -
  have d: "distinct (map fst exampleStates)"
    by (simp add: exampleStates_def)
  have t: "consideredTurns exampleStates 12 = [12, 1]" "consideredTurns exampleStates 1 = [1]"
    by (simp_all add: consideredTurns_def exampleStates_def)
  have sp: "consideredSpan exampleStates 12 = 11"
    by (simp add: consideredSpan_def t)
  have st: "staleField (\<lambda>v. v) exampleStates 12 ''ActivePlan''"
    "\<not> staleField (\<lambda>v. v) exampleStates 12 ''ThreatAssessment''"
    by (simp_all add: staleField_def fieldValues_def serializedField_def exampleStates_def)
  show ?thesis
    using d detectLedgerStaleness_spec [OF d, of "\<lambda>v. v" 12 None]
      detectLedgerStaleness_spec [OF d, of "\<lambda>v. v" 12 "Some 12"]
      detectLedgerStaleness_spec [OF d, of "\<lambda>v. v" 1 None]
    by (simp add: t sp st)
qed

subsection \<open>Properties of the knowledge schema\<close>

text \<open>
  Claim C6. The visibility bitmap of every Timed and Mutable record has exactly one
  flag per observer slot, up to the fixed maximum of 22 slots: the columns are
  \<open>Player0\<close> to \<open>Player21\<close>, one for each slot below \<open>MaxMajorCivs\<close>, pairwise
  distinct, and \<open>MaxMajorCivs\<close> is 22.
\<close>

theorem visibility_one_flag_per_slot:
  fixes t :: TimedKnowledge and m :: MutableKnowledge
  shows "MaxMajorCivs = 22
   \<and> PlayerVisibility_columns = map (\<lambda>i. ''Player'' @ showNat i) [0..<MaxMajorCivs]
   \<and> distinct PlayerVisibility_columns
   \<and> length (PlayerVisibility_flags t) = MaxMajorCivs
   \<and> length (PlayerVisibility_flags m) = MaxMajorCivs
   \<and> PlayerVisibility_flags (visibilityOf f) = map f [0..<MaxMajorCivs]"
proof -
  have u: "[0..<MaxMajorCivs] = [0, 1, 2, 3, 4, 5, 6, 7, 8, 9, 10, 11, 12, 13, 14, 15, 16, 17, 18, 19, 20, 21]"
    unfolding MaxMajorCivs_def by (simp add: upt_rec)
  have c: "PlayerVisibility_columns = map (\<lambda>i. ''Player'' @ showNat i) [0..<MaxMajorCivs]"
    unfolding u PlayerVisibility_columns_def by (simp add: showNat.simps)
  have d: "distinct PlayerVisibility_columns"
    unfolding PlayerVisibility_columns_def by simp
  have f: "PlayerVisibility_flags (visibilityOf f) = map f [0..<MaxMajorCivs]"
    unfolding u by (simp add: PlayerVisibility_flags_def visibilityOf_def)
  show ?thesis
    using c d f by (simp add: MaxMajorCivs_def PlayerVisibility_flags_def)
qed

theorem visibility_one_flag_per_slot_witness:
  "length PlayerVisibility_columns = 22
   \<and> length (PlayerVisibility_flags exampleEvent) = 22
   \<and> length (PlayerVisibility_flags exampleSummary) = 22
   \<and> PlayerVisibility_flags (visibilityOf (\<lambda>i. if i = 3 then 1 else 0)) ! 3 = 1
   \<and> PlayerVisibility_flags (visibilityOf (\<lambda>i. if i = 3 then 1 else 0)) ! 4 = 0"
proof -
  note th = visibility_one_flag_per_slot
    [of exampleEvent exampleSummary "\<lambda>i. if i = 3 then 1 else 0"]
  from th have n: "MaxMajorCivs = 22" by (rule conjunct1)
  from th have "PlayerVisibility_columns = map (\<lambda>i. ''Player'' @ showNat i) [0..<MaxMajorCivs]"
    by blast
  then have c: "length PlayerVisibility_columns = length [0..<MaxMajorCivs]"
    by (metis length_map)
  from th have t: "length (PlayerVisibility_flags exampleEvent) = MaxMajorCivs"
    and m: "length (PlayerVisibility_flags exampleSummary) = MaxMajorCivs"
    and f: "PlayerVisibility_flags (visibilityOf (\<lambda>i. if i = 3 then 1 else 0))
            = map (\<lambda>i. if i = 3 then 1 else 0) [0..<MaxMajorCivs]"
    by blast+
  show ?thesis
    unfolding f t m c n by simp
qed

subsection \<open>Properties of the knowledge store operations\<close>

lemma Turn_timedRow [simp]: "Turn (timedRow i t v p n) = t"
  by (simp add: timedRow_def PlayerVisibility.defs TimedKnowledge.defs)

lemma appendTimed_rejects_iff:
  "(appendTimed t v p now stream = Inl ValidationError) = (stream \<noteq> [] \<and> t < Turn (last stream))"
  by (simp add: appendTimed_def lastTurn_def Let_def)

lemma appendTimed_isl:
  "(\<exists>e. appendTimed t v p now stream = Inl e) = (stream \<noteq> [] \<and> t < Turn (last stream))"
  by (auto simp add: appendTimed_def lastTurn_def Let_def)

lemma appendTimed_success:
  "appendTimed t v p now stream = Inr stream' \<Longrightarrow>
   stream' = stream @ [timedRow (int (length stream) + 1) t v p now]"
  by (auto simp add: appendTimed_def lastTurn_def Let_def split: if_splits)

lemma appendAll_nondecreasing:
  "sorted (map Turn stream @ map fst calls) \<Longrightarrow>
   \<exists>stream'. appendAll calls stream = Inr stream'
      \<and> take (length stream) stream' = stream
      \<and> map Turn stream' = map Turn stream @ map fst calls"
proof (induction calls arbitrary: stream)
  case Nil
  then show ?case by simp
next
  case (Cons c calls)
  obtain t v p now where c: "c = (t, v, p, now)" by (cases c)
  let ?row = "timedRow (int (length stream) + 1) t v p now"
  from Cons.prems have ok: "stream \<noteq> [] \<Longrightarrow> Turn (last stream) \<le> t"
    by (cases stream rule: rev_cases) (auto simp add: c sorted_append)
  have app: "appendTimed t v p now stream = Inr (stream @ [?row])"
  proof (cases "stream = []")
    case True
    then show ?thesis by (simp add: appendTimed_def lastTurn_def Let_def)
  next
    case False
    with ok have "\<not> t < Turn (last stream)" by simp
    with False show ?thesis by (simp add: appendTimed_def lastTurn_def Let_def)
  qed
  from Cons.prems have "sorted (map Turn (stream @ [?row]) @ map fst calls)"
    by (simp add: c)
  from Cons.IH [OF this] obtain stream' where
    s: "appendAll calls (stream @ [?row]) = Inr stream'"
       "take (length (stream @ [?row])) stream' = stream @ [?row]"
       "map Turn stream' = map Turn (stream @ [?row]) @ map fst calls"
    by blast
  from s(2) have "take (length stream) (take (length (stream @ [?row])) stream') = stream"
    by simp
  then have "take (length stream) stream' = stream"
    by (simp add: min_def)
  with s(1,3) app show ?case
    by (simp add: c)
qed

lemma getLatest_visible:
  "getLatest table k observer = Some row \<Longrightarrow> visibleTo observer row \<and> Key row = k \<and> row \<in> set table"
  unfolding getLatest_def by (auto simp add: find_Some_iff)

lemma set_getHistory:
  "set (getHistory table k limit observer)
   \<subseteq> {row \<in> set table. Key row = k \<and> visibleTo observer row}"
  unfolding getHistory_def Let_def
  by (cases limit) (auto dest: in_set_takeD)

lemma getHistory_sorted:
  "sorted_wrt (\<lambda>a b. Version b \<le> Version a) (getHistory table k limit observer)"
proof -
  have "sorted_wrt (\<lambda>a b. Version b \<le> Version a) (rev (sort_key Version xs))" for xs :: "'a MutableKnowledge_scheme list"
    using sorted_sort_key [of Version xs]
    by (simp add: sorted_wrt_rev sorted_wrt_map)
  then show ?thesis
    unfolding getHistory_def Let_def
    by (cases limit) (auto intro: sorted_wrt_take)
qed

lemma getHistory_limit:
  "getHistory table k (Some n) observer = take n (getHistory table k None observer)"
  by (simp add: getHistory_def)

lemma getHistory_all:
  "mset (getHistory table k None observer)
   = mset (filter (\<lambda>row. Key row = k \<and> visibleTo observer row) table)"
  by (simp add: getHistory_def)

lemma sorted_wrt_take_drop:
  assumes "sorted_wrt P xs" "a \<in> set (take n xs)" "b \<in> set (drop n xs)"
  shows "P a b"
proof -
  from assms(1) have "sorted_wrt P (take n xs @ drop n xs)" by simp
  with assms(2,3) show ?thesis unfolding sorted_wrt_append by blast
qed

lemma getPublic_stored:
  "row \<in> set ptable \<Longrightarrow>
   \<exists>row'. getPublic ptable (Public_Key row) observer = Some row'
      \<and> row' \<in> set ptable \<and> Public_Key row' = Public_Key row"
  unfolding getPublic_def
  by (cases "find (\<lambda>r. Public_Key r = Public_Key row) ptable")
     (auto simp add: find_None_iff find_Some_iff)

lemma getPublic_stored_distinct:
  assumes "distinct (map Public_Key ptable)" "row \<in> set ptable"
  shows "getPublic ptable (Public_Key row) observer = Some row"
proof -
  from getPublic_stored [OF assms(2)] obtain row' where
    r: "getPublic ptable (Public_Key row) observer = Some row'" "row' \<in> set ptable"
       "Public_Key row' = Public_Key row" by blast
  from assms r(2,3) have "row' = row"
    by (meson distinct_map inj_onD)
  with r(1) show ?thesis by simp
qed

lemma getPublic_Some:
  "getPublic ptable pk observer = Some row \<Longrightarrow> row \<in> set ptable \<and> Public_Key row = pk"
  unfolding getPublic_def by (auto simp add: find_Some_iff)

text \<open>
  Claim C5. \<open>appendTimed\<close> rejects a call exactly when its turn is strictly below the
  last turn recorded in the stream, and the rejection is a ValidationError; a successful
  append adds one row of that turn after the rows already there and changes none of
  them; and along a sequence of calls that continues the recorded turns without ever
  decreasing, no call fails.
\<close>

theorem appendTimed_rejects_exactly_earlier_turns:
  "(appendTimed t v p now stream = Inl ValidationError) = (stream \<noteq> [] \<and> t < Turn (last stream))
   \<and> (\<exists>e. appendTimed t v p now stream = Inl e) = (\<exists>l. lastTurn stream = Some l \<and> t < l)
   \<and> (\<forall>stream'. appendTimed t v p now stream = Inr stream' \<longrightarrow>
         take (length stream) stream' = stream \<and> length stream' = length stream + 1
         \<and> Turn (last stream') = t)
   \<and> (sorted (map Turn stream @ map fst calls) \<longrightarrow>
         (\<exists>stream'. appendAll calls stream = Inr stream'
            \<and> take (length stream) stream' = stream
            \<and> map Turn stream' = map Turn stream @ map fst calls))"
proof -
  have a: "(appendTimed t v p now stream = Inl ValidationError)
           = (stream \<noteq> [] \<and> t < Turn (last stream))"
    by (rule appendTimed_rejects_iff)
  have b: "(\<exists>e. appendTimed t v p now stream = Inl e) = (\<exists>l. lastTurn stream = Some l \<and> t < l)"
    unfolding appendTimed_isl by (simp add: lastTurn_def)
  have c: "\<forall>stream'. appendTimed t v p now stream = Inr stream' \<longrightarrow>
         take (length stream) stream' = stream \<and> length stream' = length stream + 1
         \<and> Turn (last stream') = t"
  proof (intro allI impI)
    fix stream' assume "appendTimed t v p now stream = Inr stream'"
    from appendTimed_success [OF this]
    show "take (length stream) stream' = stream \<and> length stream' = length stream + 1
          \<and> Turn (last stream') = t"
      by simp
  qed
  have d: "sorted (map Turn stream @ map fst calls) \<longrightarrow>
         (\<exists>stream'. appendAll calls stream = Inr stream'
            \<and> take (length stream) stream' = stream
            \<and> map Turn stream' = map Turn stream @ map fst calls)"
    using appendAll_nondecreasing by blast
  from a b c d show ?thesis by blast
qed

theorem appendTimed_rejects_exactly_earlier_turns_witness:
  "appendTimed 4 (visibilityOf (\<lambda>i. 1)) JNull 0 [exampleEvent] = Inl ValidationError
   \<and> appendTimed 5 (visibilityOf (\<lambda>i. 1)) JNull 0 [exampleEvent]
       = Inr [exampleEvent, timedRow 2 5 (visibilityOf (\<lambda>i. 1)) JNull 0]
   \<and> (\<exists>stream'. appendAll [(5, visibilityOf (\<lambda>i. 1), JNull, 0), (5, visibilityOf (\<lambda>i. 0), JNull, 0),
                             (9, visibilityOf (\<lambda>i. 1), JNull, 0)] [exampleEvent] = Inr stream'
         \<and> take 1 stream' = [exampleEvent] \<and> map Turn stream' = [5, 5, 5, 9])"
proof -
  have t: "Turn exampleEvent = 5"
    by (simp add: exampleEvent_def)
  have a: "appendTimed 4 (visibilityOf (\<lambda>i. 1)) JNull 0 [exampleEvent] = Inl ValidationError"
    using appendTimed_rejects_exactly_earlier_turns
      [of 4 "visibilityOf (\<lambda>i. 1)" JNull 0 "[exampleEvent]" "[]"]
    by (simp add: t)
  have b: "appendTimed 5 (visibilityOf (\<lambda>i. 1)) JNull 0 [exampleEvent]
       = Inr [exampleEvent, timedRow 2 5 (visibilityOf (\<lambda>i. 1)) JNull 0]"
    by (simp add: appendTimed_def lastTurn_def t)
  have c: "\<exists>stream'. appendAll [(5, visibilityOf (\<lambda>i. 1), JNull, 0), (5, visibilityOf (\<lambda>i. 0), JNull, 0),
                             (9, visibilityOf (\<lambda>i. 1), JNull, 0)] [exampleEvent] = Inr stream'
         \<and> take 1 stream' = [exampleEvent] \<and> map Turn stream' = [5, 5, 5, 9]"
    using appendTimed_rejects_exactly_earlier_turns
      [of 4 "visibilityOf (\<lambda>i. 1)" JNull 0 "[exampleEvent]"
          "[(5, visibilityOf (\<lambda>i. 1), JNull, 0), (5, visibilityOf (\<lambda>i. 0), JNull, 0),
            (9, visibilityOf (\<lambda>i. 1), JNull, 0)]"]
    by (simp add: t)
  from a b c show ?thesis by blast
qed

text \<open>
  Claim C2. For every observer and every table of Mutable rows (each of them a Timed
  record), a row returned by \<open>getLatest\<close> or \<open>getHistory\<close> has the observer's
  visibility flag set. Public records bypass the filter: every stored Public record is
  returned, under its key, to every observer (the stored record itself when the table
  holds one row per key), and the read of a Public record does not depend on the
  observer.
\<close>

theorem reads_return_only_visible_records:
  "(\<forall>row. getLatest table k observer = Some row \<longrightarrow>
        observer < MaxMajorCivs \<and> PlayerVisibility_flags row ! observer \<noteq> 0)
   \<and> (\<forall>row \<in> set (getHistory table k limit observer).
        observer < MaxMajorCivs \<and> PlayerVisibility_flags row ! observer \<noteq> 0)
   \<and> getPublic ptable pk observer = getPublic ptable pk observer'
   \<and> (\<forall>row \<in> set ptable.
        \<exists>row'. getPublic ptable (Public_Key row) observer = Some row'
           \<and> row' \<in> set ptable \<and> Public_Key row' = Public_Key row)
   \<and> (distinct (map Public_Key ptable) \<longrightarrow>
        (\<forall>row \<in> set ptable. getPublic ptable (Public_Key row) observer = Some row))
   \<and> (\<forall>row. getPublic ptable pk observer = Some row \<longrightarrow>
        row \<in> set ptable \<and> Public_Key row = pk)"
proof -
  have a: "\<forall>row. getLatest table k observer = Some row \<longrightarrow>
        observer < MaxMajorCivs \<and> PlayerVisibility_flags row ! observer \<noteq> 0"
    using getLatest_visible [of table k observer] by (simp add: visibleTo_def)
  have b: "\<forall>row \<in> set (getHistory table k limit observer).
        observer < MaxMajorCivs \<and> PlayerVisibility_flags row ! observer \<noteq> 0"
    using set_getHistory [of table k limit observer] by (auto simp add: visibleTo_def)
  have c: "getPublic ptable pk observer = getPublic ptable pk observer'"
    by (simp add: getPublic_def)
  have d: "\<forall>row \<in> set ptable.
        \<exists>row'. getPublic ptable (Public_Key row) observer = Some row'
           \<and> row' \<in> set ptable \<and> Public_Key row' = Public_Key row"
    using getPublic_stored [of _ ptable observer] by blast
  have e: "distinct (map Public_Key ptable) \<longrightarrow>
        (\<forall>row \<in> set ptable. getPublic ptable (Public_Key row) observer = Some row)"
    using getPublic_stored_distinct [of ptable _ observer] by blast
  have f: "\<forall>row. getPublic ptable pk observer = Some row \<longrightarrow>
        row \<in> set ptable \<and> Public_Key row = pk"
    using getPublic_Some [of ptable pk observer] by blast
  from a b c d e f show ?thesis by blast
qed

theorem reads_return_only_visible_records_witness:
  "getLatest [exampleSummary] 3 3 = Some exampleSummary
   \<and> PlayerVisibility_flags exampleSummary ! 3 = 1
   \<and> PlayerVisibility_flags exampleSummary ! 4 = 0
   \<and> getLatest [exampleSummary] 3 4 = None
   \<and> getHistory [exampleSummary] 3 None 3 = [exampleSummary]
   \<and> getHistory [exampleSummary] 3 None 4 = []
   \<and> getPublic [\<lparr>Public_ID = 1, Public_Key = 7, Public_Data = JNull\<rparr>] 7 3
       = Some \<lparr>Public_ID = 1, Public_Key = 7, Public_Data = JNull\<rparr>
   \<and> getPublic [\<lparr>Public_ID = 1, Public_Key = 7, Public_Data = JNull\<rparr>] 7 4
       = Some \<lparr>Public_ID = 1, Public_Key = 7, Public_Data = JNull\<rparr>"
proof -
  have k: "Key exampleSummary = 3" "IsLatest exampleSummary = 1"
    by (simp_all add: exampleSummary_def mutableRow_def MutableKnowledge.defs TimedKnowledge.defs)
  have f: "PlayerVisibility_flags exampleSummary ! 3 = 1" "PlayerVisibility_flags exampleSummary ! 4 = 0"
    by (simp_all add: exampleSummary_def exampleEvent_def mutableRow_def timedRow_def visibilityOf_def
        PlayerVisibility_flags_def MutableKnowledge.defs TimedKnowledge.defs PlayerVisibility.defs)
  have l3: "getLatest [exampleSummary] 3 3 = Some exampleSummary"
    by (simp add: getLatest_def visibleTo_def MaxMajorCivs_def k f)
  have h3: "getHistory [exampleSummary] 3 None 3 = [exampleSummary]"
    by (simp add: getHistory_def visibleTo_def MaxMajorCivs_def k f)
  note th = reads_return_only_visible_records
    [of "[exampleSummary]" 3 4 None "[\<lparr>Public_ID = 1, Public_Key = 7, Public_Data = JNull\<rparr>]" 7 3]
  have l4: "getLatest [exampleSummary] 3 4 = None"
  proof (cases "getLatest [exampleSummary] 3 4")
    case None
    then show ?thesis .
  next
    case (Some row)
    then have "row = exampleSummary" by (auto simp add: getLatest_def split: if_splits)
    with Some th f(2) show ?thesis by simp
  qed
  have h4: "getHistory [exampleSummary] 3 None 4 = []"
  proof (cases "getHistory [exampleSummary] 3 None 4")
    case Nil
    then show ?thesis .
  next
    case (Cons row rows)
    then have "row \<in> set (getHistory [exampleSummary] 3 None 4)" by simp
    moreover from this have "row = exampleSummary"
      using set_getHistory [of "[exampleSummary]" 3 None 4] by auto
    ultimately show ?thesis using th f(2) by auto
  qed
  let ?ptable = "[\<lparr>Public_ID = 1, Public_Key = 7, Public_Data = JNull\<rparr>]"
  from th have eq: "getPublic ?ptable 7 4 = getPublic ?ptable 7 3"
    by blast
  from th have "\<forall>row \<in> set ?ptable.
        \<exists>row'. getPublic ?ptable (Public_Key row) 4 = Some row'
           \<and> row' \<in> set ?ptable \<and> Public_Key row' = Public_Key row"
    by blast
  then have p4: "getPublic ?ptable 7 4 = Some \<lparr>Public_ID = 1, Public_Key = 7, Public_Data = JNull\<rparr>"
    by simp
  with eq have p3: "getPublic ?ptable 7 3 = Some \<lparr>Public_ID = 1, Public_Key = 7, Public_Data = JNull\<rparr>"
    by simp
  from l3 f l4 h3 h4 p3 p4 show ?thesis by simp
qed

text \<open>
  Claim C7. \<open>getHistory\<close> returns the stored versions of the key (those the observer
  may see) as a sequence sorted newest first, that is by descending version, so the
  first \<open>n\<close> elements are the \<open>n\<close> most recent: nothing after them has a higher
  version. A limit cuts the unlimited sequence to its first elements. The decision
  audit of \<open>GetStrategicLedgerTool.execute\<close> is therefore built from the five newest
  LLM-authored strategy changes of the player.
\<close>

theorem getHistory_newest_first:
  "sorted_wrt (\<lambda>a b. Version b \<le> Version a) (getHistory table k limit observer)
   \<and> (\<forall>a \<in> set (take n (getHistory table k limit observer)).
         \<forall>b \<in> set (drop n (getHistory table k limit observer)). Version b \<le> Version a)
   \<and> mset (getHistory table k None observer)
       = mset (filter (\<lambda>row. Key row = k \<and> visibleTo observer row) table)
   \<and> getHistory table k (Some n) observer = take n (getHistory table k None observer)
   \<and> (\<exists>newest. executeDecisionAudit changes playerID = map auditEntry (take 5 newest)
         \<and> sorted_wrt (\<lambda>a b. Version b \<le> Version a) newest
         \<and> mset newest
             = mset (filter (\<lambda>row. (Key row = int playerID \<and> visibleTo playerID row) \<and> llmAuthored row)
                            changes))"
proof -
  let ?H = "getHistory table k limit observer"
  have s: "sorted_wrt (\<lambda>a b. Version b \<le> Version a) ?H"
    by (rule getHistory_sorted)
  have td: "\<forall>a \<in> set (take n ?H). \<forall>b \<in> set (drop n ?H). Version b \<le> Version a"
    using sorted_wrt_take_drop [OF s] by blast
  let ?L = "filter llmAuthored (getHistory changes (int playerID) None playerID)"
  have e1: "executeDecisionAudit changes playerID = map auditEntry (take 5 ?L)"
    by (simp add: executeDecisionAudit_def decisionAudit_def)
  have e2: "sorted_wrt (\<lambda>a b. Version b \<le> Version a) ?L"
    by (intro sorted_wrt_filter getHistory_sorted)
  have e3: "mset ?L
        = mset (filter (\<lambda>row. (Key row = int playerID \<and> visibleTo playerID row) \<and> llmAuthored row)
                       changes)"
    by (simp add: getHistory_all filter_filter_mset)
  from e1 e2 e3 have e: "\<exists>newest. executeDecisionAudit changes playerID = map auditEntry (take 5 newest)
         \<and> sorted_wrt (\<lambda>a b. Version b \<le> Version a) newest
         \<and> mset newest
             = mset (filter (\<lambda>row. (Key row = int playerID \<and> visibleTo playerID row) \<and> llmAuthored row)
                            changes)"
    by blast
  from s td e show ?thesis
    using getHistory_all [of table k observer] getHistory_limit [of table k n observer]
    by blast
qed

theorem getHistory_newest_first_witness:
  "getHistory [exampleVersion 1 0, exampleVersion 3 1, exampleVersion 2 0] 3 None 3
     = [exampleVersion 3 1, exampleVersion 2 0, exampleVersion 1 0]
   \<and> getHistory [exampleVersion 1 0, exampleVersion 3 1, exampleVersion 2 0] 3 (Some 2) 3
     = [exampleVersion 3 1, exampleVersion 2 0]
   \<and> executeDecisionAudit exampleStrategyChanges 3
     = [\<lparr>Audit_Turn = 5, Audit_GrandStrategy = Some ''Spaceflight'',
          Audit_Rationale = Some ''Apollo is within reach''\<rparr>,
        \<lparr>Audit_Turn = 5, Audit_GrandStrategy = Some ''Conquest'',
          Audit_Rationale = Some ''Neighbours are weak''\<rparr>]"
proof -
  note rows = exampleEvent_def exampleVersion_def timedRow_def mutableRow_def
    strategyChangeRow_def visibilityOf_def
    PlayerVisibility.defs TimedKnowledge.defs MutableKnowledge.defs StrategyChange.defs
  have h: "getHistory [exampleVersion 1 0, exampleVersion 3 1, exampleVersion 2 0] 3 None 3
     = [exampleVersion 3 1, exampleVersion 2 0, exampleVersion 1 0]"
    by (simp add: getHistory_def rows visibleTo_def PlayerVisibility_flags_def MaxMajorCivs_def)
  from getHistory_newest_first
    [of "[exampleVersion 1 0, exampleVersion 3 1, exampleVersion 2 0]" 3 None 3 2 exampleStrategyChanges 3]
  have "getHistory [exampleVersion 1 0, exampleVersion 3 1, exampleVersion 2 0] 3 (Some 2) 3
        = take 2 (getHistory [exampleVersion 1 0, exampleVersion 3 1, exampleVersion 2 0] 3 None 3)"
    by blast
  then have l: "getHistory [exampleVersion 1 0, exampleVersion 3 1, exampleVersion 2 0] 3 (Some 2) 3
     = [exampleVersion 3 1, exampleVersion 2 0]"
    unfolding h by simp
  have a: "executeDecisionAudit exampleStrategyChanges 3
     = [\<lparr>Audit_Turn = 5, Audit_GrandStrategy = Some ''Spaceflight'',
          Audit_Rationale = Some ''Apollo is within reach''\<rparr>,
        \<lparr>Audit_Turn = 5, Audit_GrandStrategy = Some ''Conquest'',
          Audit_Rationale = Some ''Neighbours are weak''\<rparr>]"
    by (simp add: executeDecisionAudit_def decisionAudit_def auditEntry_def llmAuthored_def
        exampleStrategyChanges_def getHistory_def rows visibleTo_def PlayerVisibility_flags_def
        MaxMajorCivs_def)
  from h l a show ?thesis by blast
qed

end
